theory Spec2Isabelle
  imports Complex_Main "HOL-Library.Word" "HOL-Library.Sublist"
begin

section \<open>JavaScript strings\<close>

text \<open>
  A JavaScript string is a sequence of UTF-16 code units. ASCII literals of the source are
  written \<open>js ''...''\<close>.
\<close>

type_synonym code_unit = "16 word"
type_synonym jsstring = "code_unit list"

definition js :: "string \<Rightarrow> jsstring" where
  "js s = map of_char s"

text \<open>
  The code units that \<open>String.prototype.trim\<close> strips: ECMAScript WhiteSpace (TAB, VT, FF,
  ZWNBSP and the Unicode space separators) and LineTerminator (LF, CR, LS, PS).
\<close>

definition isWhiteSpace :: "code_unit \<Rightarrow> bool" where
  "isWhiteSpace c \<longleftrightarrow>
     c \<in> set [0x9, 0xA, 0xB, 0xC, 0xD, 0x20, 0xA0, 0x1680, 0x2028, 0x2029, 0x202F, 0x205F,
              0x3000, 0xFEFF]
     \<or> (0x2000 \<le> c \<and> c \<le> 0x200A)"

definition trim :: "jsstring \<Rightarrow> jsstring" where
  "trim s = rev (dropWhile isWhiteSpace (rev (dropWhile isWhiteSpace s)))"

definition startsWith :: "jsstring \<Rightarrow> jsstring \<Rightarrow> bool" where
  "startsWith s p \<longleftrightarrow> take (length p) s = p"


section \<open>The URL input form (web/src/components/UrlInput.tsx)\<close>

text \<open>The component state \<open>urls\<close>, initialised by \<open>useState<string[]>([''])\<close>.\<close>

definition initialUrls :: "jsstring list" where
  "initialUrls = [[]]"

definition addUrl :: "jsstring list \<Rightarrow> jsstring list" where
  "addUrl urls = (if length urls < 5 then urls @ [[]] else urls)"

text \<open>\<open>xs.filter((_, i) => p(i))\<close>: the elements whose index satisfies \<open>p\<close>.\<close>

definition filter_index :: "(nat \<Rightarrow> bool) \<Rightarrow> 'a list \<Rightarrow> 'a list" where
  "filter_index p xs = map snd (filter (\<lambda>(i, x). p i) (enumerate 0 xs))"

definition removeUrl :: "jsstring list \<Rightarrow> nat \<Rightarrow> jsstring list" where
  "removeUrl urls index =
     (if length urls > 1 then filter_index (\<lambda>i. i \<noteq> index) urls else urls)"

text \<open>
  \<open>newUrls[index] = value\<close> on a copy of \<open>urls\<close>. Both call sites pass the index of an
  existing row (the \<open>onChange\<close> of a rendered input, and a \<open>findIndex\<close> result other than
  \<open>-1\<close>). An index past the end would make JavaScript grow the array with holes; that case
  is outside the model and is \<open>None\<close>.
\<close>

definition updateUrl :: "jsstring list \<Rightarrow> nat \<Rightarrow> jsstring \<Rightarrow> jsstring list option" where
  "updateUrl urls index v =
     (if index < length urls then Some (urls[index := v]) else None)"

text \<open>\<open>Array.prototype.findIndex\<close>; \<open>None\<close> stands for the result \<open>-1\<close>.\<close>

fun findIndex :: "('a \<Rightarrow> bool) \<Rightarrow> 'a list \<Rightarrow> nat option" where
  "findIndex p [] = None"
| "findIndex p (x # xs) = (if p x then Some 0 else map_option Suc (findIndex p xs))"

definition exampleSites :: "jsstring list" where
  "exampleSites =
     [js ''linear.app'', js ''vercel.com'', js ''stripe.com'', js ''notion.so'', js ''figma.com'']"

text \<open>The \<open>onClick\<close> of an example-site button.\<close>

definition clickExample :: "jsstring list \<Rightarrow> jsstring \<Rightarrow> jsstring list option" where
  "clickExample urls site =
     (case findIndex (\<lambda>u. trim u = []) urls of
        Some emptyIndex \<Rightarrow> updateUrl urls emptyIndex site
      | None \<Rightarrow> if length urls < 5 then Some (urls @ [site]) else Some urls)"

definition normalizeUrl :: "jsstring \<Rightarrow> jsstring" where
  "normalizeUrl url =
     (if \<not> startsWith url (js ''http://'') \<and> \<not> startsWith url (js ''https://'')
      then js ''https://'' @ url
      else url)"

text \<open>
  \<open>handleSubmit\<close>: the result is the argument of the call \<open>onSubmit(normalizedUrls)\<close>, or
  \<open>None\<close> when \<open>onSubmit\<close> is not called.
\<close>

definition handleSubmit :: "jsstring list \<Rightarrow> jsstring list option" where
  "handleSubmit urls =
     (let validUrls = filter (\<lambda>url. trim url \<noteq> []) urls
      in if length validUrls > 0 then Some (map normalizeUrl validUrls) else None)"

text \<open>
  The user's actions on the form that change \<open>urls\<close>. An action the rendered form does not
  offer (typing into a row that does not exist, a site that is not among the examples)
  gives \<open>None\<close>.
\<close>

datatype event =
    AddUrl
  | RemoveUrl nat
  | Change nat jsstring
  | ClickExample jsstring

fun step :: "jsstring list \<Rightarrow> event \<Rightarrow> jsstring list option" where
  "step urls AddUrl = Some (addUrl urls)"
| "step urls (RemoveUrl index) = Some (removeUrl urls index)"
| "step urls (Change index v) = updateUrl urls index v"
| "step urls (ClickExample site) =
     (if site \<in> set exampleSites then clickExample urls site else None)"

fun run :: "jsstring list \<Rightarrow> event list \<Rightarrow> jsstring list option" where
  "run urls [] = Some urls"
| "run urls (e # es) = (case step urls e of None \<Rightarrow> None | Some urls' \<Rightarrow> run urls' es)"


section \<open>The export file name (web/src/components/ExportButton.tsx)\<close>

definition hyphen :: code_unit where
  "hyphen = of_char CHR ''-''"

text \<open>The class \<open>[a-z0-9]\<close>.\<close>

definition isLowerAlnum :: "code_unit \<Rightarrow> bool" where
  "isLowerAlnum c \<longleftrightarrow>
     (of_char CHR ''a'' \<le> c \<and> c \<le> of_char CHR ''z'')
     \<or> (of_char CHR ''0'' \<le> c \<and> c \<le> of_char CHR ''9'')"

text \<open>
  \<open>.replace(/[^a-z0-9]+/g, '-')\<close>: scanning from the left, every maximal run of code
  units outside \<open>[a-z0-9]\<close> is replaced by one hyphen.
\<close>

function replaceRuns :: "jsstring \<Rightarrow> jsstring" where
  "replaceRuns [] = []"
| "replaceRuns (c # cs) =
     (if isLowerAlnum c then c # replaceRuns cs
      else hyphen # replaceRuns (dropWhile (\<lambda>d. \<not> isLowerAlnum d) cs))"
  by pat_completeness auto
termination
  by (relation "measure length") (auto simp: length_dropWhile_le less_Suc_eq_le)

text \<open>
  \<open>.replace(/^-|-$/g, '')\<close>: without the \<open>m\<close> flag \<open>^\<close> and \<open>$\<close> are the ends of the
  input, so a hyphen at index 0 is removed, and then a hyphen at the last index of what
  remains.
\<close>

definition stripEdgeHyphens :: "jsstring \<Rightarrow> jsstring" where
  "stripEdgeHyphens s =
     (let t = (case s of [] \<Rightarrow> [] | c # cs \<Rightarrow> if c = hyphen then cs else s)
      in if t \<noteq> [] \<and> last t = hyphen then butlast t else t)"

text \<open>
  \<open>String.prototype.toLowerCase\<close> on the ASCII range. Outside ASCII the built-in follows
  the Unicode case mappings, which can change the length of the string; the lower-casing
  function is therefore a parameter of \<open>sanitizeFilename\<close> below, and this is the instance
  for ASCII input.
\<close>

definition toLowerCaseAscii :: "jsstring \<Rightarrow> jsstring" where
  "toLowerCaseAscii s =
     map (\<lambda>c. if of_char CHR ''A'' \<le> c \<and> c \<le> of_char CHR ''Z'' then c + 32 else c) s"

definition sanitizeFilename :: "(jsstring \<Rightarrow> jsstring) \<Rightarrow> jsstring \<Rightarrow> jsstring" where
  "sanitizeFilename toLowerCase name =
     (let s = stripEdgeHyphens (replaceRuns (toLowerCase name))
      in if s \<noteq> [] then s else js ''landing-page'')"


section \<open>The API client (web/src/lib/api.ts)\<close>

text \<open>
  The values a parsed JSON body and a property read can give. \<open>Num\<close> holds the exact value
  of the parsed number; an object holds its own properties, each key once.
\<close>

datatype jsval =
    Undefined
  | Null
  | Bool bool
  | Num rat
  | Str jsstring
  | Arr "jsval list"
  | Obj "(jsstring \<times> jsval) list"







text \<open>
  A \<open>Response\<close> as the client reads it: \<open>body_json\<close> is the outcome of
  \<open>response.json()\<close>, \<open>None\<close> when that promise rejects.
\<close>

record response =
  ok :: bool
  status :: nat
  statusText :: jsstring
  body_json :: "jsval option"





subsection \<open>The message of the thrown error, in words\<close>





section \<open>The design pattern extraction engine (specification, sections 3 and 4)\<close>

text \<open>
  The engine is the Python backend (\<open>cli/landingforge\<close>: \<open>scraper.py\<close>, \<open>analyzer.py\<close>,
  \<open>models.py\<close>), which is not among the sources; only the client's type declarations of
  its result are (\<open>web/src/lib/api.ts\<close>). Every definition of this section is therefore
  modelled from the specification and marked so.
\<close>

subsection \<open>Data model\<close>

text \<open>Modelled from the spec: the records of section 3 (the engine's \<open>models.py\<close> is missing),
  with the fields and the field types of the client's interfaces: colours, fonts and sizes
  are strings. The field \<open>text\<close> of \<open>ColorPalette\<close> is \<open>text_color\<close> here.\<close>

record ColorPalette =
  primary :: string
  secondary :: string
  accent :: string
  background :: string
  text_color :: string

record Typography =
  heading_font :: string
  body_font :: string
  heading_sizes :: "string list"
  body_size :: string

record LayoutPattern =
  has_hero :: bool
  has_features_grid :: bool
  has_testimonials :: bool
  has_pricing :: bool
  has_cta :: bool
  has_footer :: bool
  is_dark_mode :: bool

text \<open>Modelled from the spec: the per-site tuple of section 4.6 (palette, typography, layout,
  section list, animation list), and the \<open>DesignAnalysis\<close> that adds the contributing URLs.\<close>

record SiteResult =
  colors :: ColorPalette
  typography :: Typography
  layout :: LayoutPattern
  sections :: "string list"
  animations :: "string list"

record DesignAnalysis = SiteResult +
  source_urls :: "string list"

subsection \<open>Typography extractor: heading sizes (section 4.4)\<close>

text \<open>Modelled from the spec: the number of pixels of a resolved \<open>font-size\<close> such as \<open>48px\<close>
  or \<open>47.5px\<close>: the decimal number that the string starts with.\<close>

definition is_digit :: "char \<Rightarrow> bool" where
  "is_digit c \<longleftrightarrow> c \<in> set ''0123456789''"

definition digits_value :: "string \<Rightarrow> nat" where
  "digits_value ds = foldl (\<lambda>n c. 10 * n + (of_char c - 48)) 0 ds"

definition px_value :: "string \<Rightarrow> rat" where
  "px_value s =
     (let whole = takeWhile is_digit s;
          rest = dropWhile is_digit s;
          frac = (case rest of
                    [] \<Rightarrow> []
                  | c # cs \<Rightarrow> if c = CHR ''.'' then takeWhile is_digit cs else [])
      in of_nat (digits_value whole) + of_nat (digits_value frac) / 10 ^ length frac)"

text \<open>Modelled from the spec: "deduplicated within a small tolerance (sizes within ~1px
  treated as equal)", on a list that is already sorted: a size is kept, and the sizes after
  it that are within the tolerance of it are dropped.\<close>

function dedup_tol :: "rat \<Rightarrow> rat list \<Rightarrow> rat list" where
  "dedup_tol tol [] = []"
| "dedup_tol tol (x # xs) = x # dedup_tol tol (dropWhile (\<lambda>y. \<bar>x - y\<bar> \<le> tol) xs)"
  by pat_completeness auto
termination
  by (relation "measure (\<lambda>(tol, xs). length xs)") (auto simp: length_dropWhile_le less_Suc_eq_le)

text \<open>Modelled from the spec: "the distinct set of sizes observed in the heading pool, sorted
  descending, deduplicated within a small tolerance", on the numbers of pixels.\<close>

definition normalize_sizes :: "rat \<Rightarrow> rat list \<Rightarrow> rat list" where
  "normalize_sizes tol sizes = dedup_tol tol (rev (sort (remdups sizes)))"

text \<open>Modelled from the spec: the size string that stands for a number of pixels: the first
  one observed with that value.\<close>

definition size_string :: "string list \<Rightarrow> rat \<Rightarrow> string" where
  "size_string observed v =
     (case List.find (\<lambda>s. px_value s = v) observed of Some s \<Rightarrow> s | None \<Rightarrow> [])"

text \<open>Modelled from the spec: the same normalisation on the size strings that the records
  hold.\<close>

definition normalize_size_strings :: "rat \<Rightarrow> string list \<Rightarrow> string list" where
  "normalize_size_strings tol observed =
     map (size_string observed) (normalize_sizes tol (map px_value observed))"



subsection \<open>Consensus merger (section 4.6)\<close>

text \<open>Modelled from the spec: "true for a strict majority of successfully analyzed sites
  (>50%)".\<close>

definition strict_majority :: "bool list \<Rightarrow> bool" where
  "strict_majority votes \<longleftrightarrow> length votes < 2 * length (filter (\<lambda>v. v) votes)"

text \<open>Modelled from the spec: the layout booleans of the merged result, each voted on its
  own.\<close>

definition merge_layout :: "LayoutPattern list \<Rightarrow> LayoutPattern" where
  "merge_layout ls =
     \<lparr>has_hero = strict_majority (map has_hero ls),
      has_features_grid = strict_majority (map has_features_grid ls),
      has_testimonials = strict_majority (map has_testimonials ls),
      has_pricing = strict_majority (map has_pricing ls),
      has_cta = strict_majority (map has_cta ls),
      has_footer = strict_majority (map has_footer ls),
      is_dark_mode = strict_majority (map is_dark_mode ls)\<rparr>"

text \<open>Modelled from the spec: the "seven independent booleans" of \<open>LayoutPattern\<close>.\<close>

definition layout_booleans :: "(LayoutPattern \<Rightarrow> bool) list" where
  "layout_booleans =
     [has_hero, has_features_grid, has_testimonials, has_pricing, has_cta, has_footer,
      is_dark_mode]"

text \<open>Modelled from the spec: "pick by majority vote; ties broken by the value from the first
  URL in the input order that holds the leading value". The candidates are visited in
  input order and a later one replaces the leader only with strictly more votes.\<close>

fun leading :: "'a list \<Rightarrow> 'a \<Rightarrow> 'a list \<Rightarrow> 'a" where
  "leading votes best [] = best"
| "leading votes best (c # cs) =
     leading votes (if count_list votes best < count_list votes c then c else best) cs"

definition vote :: "'a \<Rightarrow> 'a list \<Rightarrow> 'a" where
  "vote v vs = leading (v # vs) v vs"

text \<open>Modelled from the spec: "union across all sites, ordered by first appearance across
  sites in input order, duplicates removed".\<close>

definition first_seen :: "'a list \<Rightarrow> 'a list" where
  "first_seen xs = fold (\<lambda>x acc. if x \<in> set acc then acc else acc @ [x]) xs []"

text \<open>Modelled from the spec: the merged \<open>heading_sizes\<close>, "the union of all sites' sizes,
  deduplicated (tolerance as in 4.4) and sorted descending".\<close>

definition merge_heading_sizes :: "rat \<Rightarrow> Typography list \<Rightarrow> string list" where
  "merge_heading_sizes tol ts = normalize_size_strings tol (concat (map heading_sizes ts))"

text \<open>Modelled from the spec: the Consensus Merger over the results of the successfully
  analyzed sites, of which there is at least one: the first, \<open>s\<close>, and the others, \<open>ss\<close>.\<close>

definition consensus_merge :: "rat \<Rightarrow> SiteResult \<Rightarrow> SiteResult list \<Rightarrow> SiteResult" where
  "consensus_merge tol s ss =
     \<lparr>colors =
        \<lparr>primary = vote (primary (colors s)) (map (\<lambda>r. primary (colors r)) ss),
         secondary = vote (secondary (colors s)) (map (\<lambda>r. secondary (colors r)) ss),
         accent = vote (accent (colors s)) (map (\<lambda>r. accent (colors r)) ss),
         background = vote (background (colors s)) (map (\<lambda>r. background (colors r)) ss),
         text_color = vote (text_color (colors s)) (map (\<lambda>r. text_color (colors r)) ss)\<rparr>,
      typography =
        \<lparr>heading_font =
           vote (heading_font (typography s)) (map (\<lambda>r. heading_font (typography r)) ss),
         body_font = vote (body_font (typography s)) (map (\<lambda>r. body_font (typography r)) ss),
         heading_sizes = merge_heading_sizes tol (map typography (s # ss)),
         body_size = vote (body_size (typography s)) (map (\<lambda>r. body_size (typography r)) ss)\<rparr>,
      layout = merge_layout (map layout (s # ss)),
      sections = first_seen (concat (map sections (s # ss))),
      animations = first_seen (concat (map animations (s # ss)))\<rparr>"

text \<open>Modelled from the spec: a per-site result to evaluate the merger on, with the colours,
  fonts and sections of the sample response in the README; its \<open>has_cta\<close> flag and its
  heading sizes are parameters.\<close>

definition example_site :: "bool \<Rightarrow> string list \<Rightarrow> SiteResult" where
  "example_site cta sizes =
     \<lparr>colors = \<lparr>primary = ''#5E6AD2'', secondary = ''#2D2D2D'', accent = ''#F5A623'',
                background = ''#000000'', text_color = ''#FFFFFF''\<rparr>,
      typography = \<lparr>heading_font = ''Inter'', body_font = ''Inter'', heading_sizes = sizes,
                    body_size = ''16px''\<rparr>,
      layout = \<lparr>has_hero = True, has_features_grid = True, has_testimonials = False,
                has_pricing = False, has_cta = cta, has_footer = True, is_dark_mode = True\<rparr>,
      sections = [''hero'', ''features'', ''cta'', ''footer''],
      animations = [''fade'']\<rparr>"

subsection \<open>The operation \<open>analyze\<close> (sections 2, 4.6 and 6)\<close>

text \<open>Modelled from the spec: the failure reasons of section 6 that the merge policy
  produces.\<close>

datatype failure = NoUrlsProvided | NoAnalyzableSources



text \<open>Modelled from the spec: each URL is rendered and sampled on its own; one that fails to
  render is left out. The renderer (\<open>None\<close> is a per-URL failure) and the per-site
  extraction are the injected collaborators of section 9.\<close>

fun analyze_each ::
  "(string \<Rightarrow> 'page option) \<Rightarrow> ('page \<Rightarrow> SiteResult) \<Rightarrow> string list \<Rightarrow> (string \<times> SiteResult) list"
where
  "analyze_each render extract_site [] = []"
| "analyze_each render extract_site (u # us) =
     (case render u of
        None \<Rightarrow> analyze_each render extract_site us
      | Some page \<Rightarrow> (u, extract_site page) # analyze_each render extract_site us)"

text \<open>Modelled from the spec: \<open>analyze\<close>, "if all URLs fail rendering, the whole operation
  fails with a no analyzable sources condition; partial success always yields a usable
  DesignAnalysis", whose \<open>source_urls\<close> are "the URLs that were successfully analyzed, in
  original input order".\<close>

definition analyze ::
  "rat \<Rightarrow> (string \<Rightarrow> 'page option) \<Rightarrow> ('page \<Rightarrow> SiteResult) \<Rightarrow> string list
     \<Rightarrow> failure + DesignAnalysis"
where
  "analyze tol render extract_site urls =
     (if urls = [] then Inl NoUrlsProvided
      else
        (case analyze_each render extract_site urls of
           [] \<Rightarrow> Inl NoAnalyzableSources
         | (u, s) # rest \<Rightarrow>
             (let merged = consensus_merge tol s (map snd rest)
              in Inr \<lparr>colors = colors merged, typography = typography merged,
                      layout = layout merged, sections = sections merged,
                      animations = animations merged,
                      source_urls = u # map fst rest\<rparr>)))"

subsection \<open>Palette extractor: the text and background roles (section 4.3)\<close>

text \<open>Modelled from the spec: the colour value of a sample, "normalized to a canonical hex
  form", as its three 8-bit channels; alpha is not modelled.\<close>

record rgb =
  red :: "8 word"
  green :: "8 word"
  blue :: "8 word"

text \<open>Modelled from the spec: the "pure black or white" of the text fallback.\<close>

definition black :: rgb where
  "black = \<lparr>red = 0, green = 0, blue = 0\<rparr>"

definition white :: rgb where
  "white = \<lparr>red = 255, green = 255, blue = 255\<rparr>"

text \<open>Modelled from the spec: "the W3C-style relative luminance/contrast formulas" of
  section 9, as WCAG 2 defines them.\<close>

definition linearize :: "8 word \<Rightarrow> real" where
  "linearize c =
     (let v = real (unat c) / 255
      in if v \<le> 0.03928 then v / 12.92 else ((v + 0.055) / 1.055) powr 2.4)"

definition relative_luminance :: "rgb \<Rightarrow> real" where
  "relative_luminance c =
     0.2126 * linearize (red c) + 0.7152 * linearize (green c) + 0.0722 * linearize (blue c)"

definition contrast_ratio :: "real \<Rightarrow> real \<Rightarrow> real" where
  "contrast_ratio l1 l2 = (max l1 l2 + 0.05) / (min l1 l2 + 0.05)"

definition contrast :: "rgb \<Rightarrow> rgb \<Rightarrow> real" where
  "contrast c d = contrast_ratio (relative_luminance c) (relative_luminance d)"

text \<open>Modelled from the spec: the \<open>ColorSample\<close> of section 3, after the clustering of
  step 1: a colour, its weight and its structural tag.\<close>

datatype structural_tag = TextTag | BackgroundTag | BorderTag | AccentTag

record ColorSample =
  color :: rgb
  weight :: nat
  tag :: structural_tag

text \<open>Modelled from the spec: "rank clusters by total weight descending", "ties broken by
  first-seen order": the heaviest sample, the earliest among equals.\<close>

fun heaviest :: "ColorSample \<Rightarrow> ColorSample list \<Rightarrow> ColorSample" where
  "heaviest best [] = best"
| "heaviest best (s # ss) = heaviest (if weight best < weight s then s else best) ss"

text \<open>Modelled from the spec: "background: the highest-weight color sampled specifically with
  the background structural tag", and the fallback default (a parameter) when there is
  none.\<close>

definition choose_background :: "rgb \<Rightarrow> ColorSample list \<Rightarrow> rgb" where
  "choose_background default_background samples =
     (case filter (\<lambda>s. tag s = BackgroundTag) samples of
        [] \<Rightarrow> default_background
      | s # ss \<Rightarrow> color (heaviest s ss))"

text \<open>Modelled from the spec: "text: the highest-weight color sampled with the text tag that
  has sufficient contrast against the chosen background (contrast ratio above a fixed
  minimum; if none qualifies, fall back to pure black or white, whichever contrasts
  better)".\<close>

definition choose_text :: "real \<Rightarrow> rgb \<Rightarrow> ColorSample list \<Rightarrow> rgb" where
  "choose_text min_contrast bg samples =
     (case filter (\<lambda>s. tag s = TextTag \<and> min_contrast \<le> contrast (color s) bg) samples of
        [] \<Rightarrow> if contrast black bg \<le> contrast white bg then white else black
      | s # ss \<Rightarrow> color (heaviest s ss))"

text \<open>Modelled from the spec: the background and text roles of the palette of one site.\<close>

definition extract_background_text :: "real \<Rightarrow> rgb \<Rightarrow> ColorSample list \<Rightarrow> rgb \<times> rgb" where
  "extract_background_text min_contrast default_background samples =
     (let bg = choose_background default_background samples
      in (bg, choose_text min_contrast bg samples))"


section \<open>Properties of the URL input form\<close>

lemma trim_empty_iff: "trim s = [] \<longleftrightarrow> list_all isWhiteSpace s"
proof -
  have "trim s = [] \<longleftrightarrow> dropWhile isWhiteSpace (rev (dropWhile isWhiteSpace s)) = []"
    by (simp add: trim_def)
  also have "\<dots> \<longleftrightarrow> (\<forall>c\<in>set (dropWhile isWhiteSpace s). isWhiteSpace c)"
    by (simp add: dropWhile_eq_Nil_conv)
  also have "\<dots> \<longleftrightarrow> dropWhile isWhiteSpace s = []"
  proof
    assume a: "\<forall>c\<in>set (dropWhile isWhiteSpace s). isWhiteSpace c"
    show "dropWhile isWhiteSpace s = []"
    proof (cases "dropWhile isWhiteSpace s")
      case Nil
      then show ?thesis .
    next
      case (Cons c cs)
      then have "\<not> isWhiteSpace (hd (dropWhile isWhiteSpace s))"
        using hd_dropWhile[of isWhiteSpace s] by simp
      with Cons a show ?thesis by simp
    qed
  next
    assume "dropWhile isWhiteSpace s = []"
    then show "\<forall>c\<in>set (dropWhile isWhiteSpace s). isWhiteSpace c"
      by (simp del: dropWhile_eq_Nil_conv)
  qed
  also have "\<dots> \<longleftrightarrow> list_all isWhiteSpace s"
    by (simp add: dropWhile_eq_Nil_conv list_all_iff)
  finally show ?thesis .
qed

lemma startsWith_append: "startsWith (p @ s) p"
  by (simp add: startsWith_def)

lemma normalizeUrl_scheme:
  "startsWith (normalizeUrl u) (js ''http://'') \<or> startsWith (normalizeUrl u) (js ''https://'')"
  unfolding normalizeUrl_def using startsWith_append by simp

text \<open>
  Claim C9. Every URL that \<open>handleSubmit\<close> passes to \<open>onSubmit\<close> begins with \<open>http://\<close> or
  \<open>https://\<close>: the submitted array is the list of the entries that are not empty or
  whitespace-only, in order, where an entry that already starts with either scheme is
  unchanged and every other entry has \<open>https://\<close> prepended.
\<close>

theorem handleSubmit_urls_have_scheme:
  assumes "handleSubmit urls = Some out"
  shows "(\<forall>u\<in>set out. startsWith u (js ''http://'') \<or> startsWith u (js ''https://''))
       \<and> out = map (\<lambda>u. if startsWith u (js ''http://'') \<or> startsWith u (js ''https://'')
                          then u else js ''https://'' @ u)
                    (filter (\<lambda>u. \<not> list_all isWhiteSpace u) urls)"
proof
  from assms have out: "out = map normalizeUrl (filter (\<lambda>url. trim url \<noteq> []) urls)"
    by (simp add: handleSubmit_def Let_def split: if_splits)
  show "\<forall>u\<in>set out. startsWith u (js ''http://'') \<or> startsWith u (js ''https://'')"
  proof
    fix u assume "u \<in> set out"
    then obtain v where "u = normalizeUrl v" using out by auto
    then show "startsWith u (js ''http://'') \<or> startsWith u (js ''https://'')"
      using normalizeUrl_scheme by simp
  qed
  have f: "filter (\<lambda>url. trim url \<noteq> []) urls = filter (\<lambda>u. \<not> list_all isWhiteSpace u) urls"
    by (simp only: trim_empty_iff)
  have n: "map normalizeUrl xs =
           map (\<lambda>u. if startsWith u (js ''http://'') \<or> startsWith u (js ''https://'')
                     then u else js ''https://'' @ u) xs" for xs
    unfolding normalizeUrl_def by (rule map_cong) auto
  show "out = map (\<lambda>u. if startsWith u (js ''http://'') \<or> startsWith u (js ''https://'')
                          then u else js ''https://'' @ u)
                    (filter (\<lambda>u. \<not> list_all isWhiteSpace u) urls)"
    using out f n by (simp only:)
qed

theorem handleSubmit_urls_have_scheme_witness:
  "handleSubmit [js ''linear.app'', js ''  '', js ''http://x.y'', [], js ''https://vercel.com'']
     = Some [js ''https://linear.app'', js ''http://x.y'', js ''https://vercel.com'']
   \<and> list_all (\<lambda>u. startsWith u (js ''http://'') \<or> startsWith u (js ''https://''))
         [js ''https://linear.app'', js ''http://x.y'', js ''https://vercel.com'']"
proof -
  have h: "handleSubmit
             [js ''linear.app'', js ''  '', js ''http://x.y'', [], js ''https://vercel.com'']
           = Some [js ''https://linear.app'', js ''http://x.y'', js ''https://vercel.com'']"
    by (simp add: handleSubmit_def trim_def js_def isWhiteSpace_def normalizeUrl_def
        startsWith_def)
  from handleSubmit_urls_have_scheme[OF h]
  have "list_all (\<lambda>u. startsWith u (js ''http://'') \<or> startsWith u (js ''https://''))
          [js ''https://linear.app'', js ''http://x.y'', js ''https://vercel.com'']"
    unfolding list_all_iff by blast
  with h show ?thesis by blast
qed

lemma filter_index_skip:
  "map snd (filter (\<lambda>(i, x). i \<noteq> k + n) (enumerate n xs)) = take k xs @ drop (Suc k) xs"
proof (induction xs arbitrary: n k)
  case Nil
  then show ?case by simp
next
  case (Cons x xs)
  show ?case
  proof (cases k)
    case 0
    have "filter (\<lambda>(i, x). i \<noteq> n) (enumerate (Suc n) xs) = enumerate (Suc n) xs"
      by (rule filter_True) (auto simp: in_set_enumerate_eq)
    with 0 show ?thesis by simp
  next
    case (Suc j)
    with Cons.IH[of j "Suc n"] show ?thesis by simp
  qed
qed

lemma removeUrl_take_drop:
  "removeUrl urls index =
     (if length urls > 1 then take index urls @ drop (Suc index) urls else urls)"
  using filter_index_skip[of index 0 urls] by (simp add: removeUrl_def filter_index_def)

lemma addUrl_length:
  "1 \<le> length urls \<and> length urls \<le> 5 \<Longrightarrow> 1 \<le> length (addUrl urls) \<and> length (addUrl urls) \<le> 5"
  by (simp add: addUrl_def)

lemma removeUrl_length:
  "1 \<le> length urls \<and> length urls \<le> 5
   \<Longrightarrow> 1 \<le> length (removeUrl urls index) \<and> length (removeUrl urls index) \<le> 5"
  by (auto simp: removeUrl_take_drop)

lemma updateUrl_length: "updateUrl urls index v = Some urls' \<Longrightarrow> length urls' = length urls"
  by (auto simp: updateUrl_def split: if_splits)

lemma clickExample_length:
  "1 \<le> length urls \<and> length urls \<le> 5 \<Longrightarrow> clickExample urls site = Some urls'
   \<Longrightarrow> 1 \<le> length urls' \<and> length urls' \<le> 5"
  by (auto simp: clickExample_def updateUrl_def split: option.splits if_splits)

lemma step_length:
  "1 \<le> length urls \<and> length urls \<le> 5 \<Longrightarrow> step urls e = Some urls'
   \<Longrightarrow> 1 \<le> length urls' \<and> length urls' \<le> 5"
proof (cases e)
  case AddUrl
  assume "1 \<le> length urls \<and> length urls \<le> 5" "step urls e = Some urls'"
  with AddUrl show ?thesis using addUrl_length[of urls] by auto
next
  case (RemoveUrl i)
  assume "1 \<le> length urls \<and> length urls \<le> 5" "step urls e = Some urls'"
  with RemoveUrl show ?thesis using removeUrl_length[of urls i] by auto
next
  case (Change i v)
  assume "1 \<le> length urls \<and> length urls \<le> 5" "step urls e = Some urls'"
  with Change show ?thesis using updateUrl_length[of urls i v urls'] by auto
next
  case (ClickExample site)
  assume "1 \<le> length urls \<and> length urls \<le> 5" "step urls e = Some urls'"
  with ClickExample show ?thesis
    using clickExample_length[of urls site urls'] by (auto split: if_splits)
qed

lemma run_length:
  "1 \<le> length urls \<and> length urls \<le> 5 \<Longrightarrow> run urls es = Some urls'
   \<Longrightarrow> 1 \<le> length urls' \<and> length urls' \<le> 5"
proof (induction es arbitrary: urls)
  case Nil
  then show ?case by simp
next
  case (Cons e es)
  from Cons.prems(2) obtain mid where s: "step urls e = Some mid" and r: "run mid es = Some urls'"
    by (auto split: option.splits)
  from step_length[OF Cons.prems(1) s] have "1 \<le> length mid \<and> length mid \<le> 5" .
  from Cons.IH[OF this r] show ?case .
qed

lemma handleSubmit_length:
  "handleSubmit urls = Some out \<Longrightarrow> 1 \<le> length out \<and> length out \<le> length urls"
  by (auto simp: handleSubmit_def Let_def Suc_le_eq simp del: filter_empty_conv split: if_splits)

lemma handleSubmit_None_iff:
  "handleSubmit urls = None \<longleftrightarrow> (\<forall>u\<in>set urls. trim u = [])"
  by (auto simp: handleSubmit_def Let_def filter_empty_conv)

text \<open>
  Claim C7. In every state of the form that the user's actions can reach from the initial
  one, the list has between 1 and 5 entries and \<open>addUrl\<close> does not grow it past 5;
  \<open>handleSubmit\<close> calls \<open>onSubmit\<close> unless every entry is blank, and the array it passes has
  between 1 and 5 elements.
\<close>

theorem onSubmit_between_one_and_five:
  assumes "run initialUrls es = Some urls"
  shows "1 \<le> length urls \<and> length urls \<le> 5
       \<and> length (addUrl urls) \<le> 5
       \<and> (handleSubmit urls = None \<longleftrightarrow> (\<forall>u\<in>set urls. trim u = []))
       \<and> (\<forall>out. handleSubmit urls = Some out \<longrightarrow> 1 \<le> length out \<and> length out \<le> 5)"
proof -
  have "1 \<le> length initialUrls \<and> length initialUrls \<le> 5" by (simp add: initialUrls_def)
  from run_length[OF this assms] have ok: "1 \<le> length urls \<and> length urls \<le> 5" .
  then have "length (addUrl urls) \<le> 5" using addUrl_length by blast
  moreover have "\<forall>out. handleSubmit urls = Some out \<longrightarrow> 1 \<le> length out \<and> length out \<le> 5"
    using ok handleSubmit_length by fastforce
  ultimately show ?thesis using ok handleSubmit_None_iff by simp
qed

theorem onSubmit_between_one_and_five_witness:
  "run initialUrls [Change 0 (js ''linear.app''), AddUrl, ClickExample (js ''vercel.com''),
                    AddUrl, RemoveUrl 2]
     = Some [js ''linear.app'', js ''vercel.com'']
   \<and> handleSubmit [js ''linear.app'', js ''vercel.com'']
       = Some [js ''https://linear.app'', js ''https://vercel.com'']
   \<and> 1 \<le> length [js ''https://linear.app'', js ''https://vercel.com'']
   \<and> length [js ''https://linear.app'', js ''https://vercel.com''] \<le> 5"
proof -
  have r: "run initialUrls [Change 0 (js ''linear.app''), AddUrl, ClickExample (js ''vercel.com''),
                            AddUrl, RemoveUrl 2]
           = Some [js ''linear.app'', js ''vercel.com'']"
    by (simp add: initialUrls_def updateUrl_def addUrl_def exampleSites_def clickExample_def
        trim_def js_def isWhiteSpace_def removeUrl_def filter_index_def)
  have h: "handleSubmit [js ''linear.app'', js ''vercel.com'']
           = Some [js ''https://linear.app'', js ''https://vercel.com'']"
    by (simp add: handleSubmit_def trim_def js_def isWhiteSpace_def normalizeUrl_def
        startsWith_def)
  from onSubmit_between_one_and_five[OF r] h
  have "1 \<le> length [js ''https://linear.app'', js ''https://vercel.com'']
        \<and> length [js ''https://linear.app'', js ''https://vercel.com''] \<le> 5"
    by blast
  with r h show ?thesis by blast
qed


section \<open>Properties of the export file name\<close>

lemma hyphen_not_alnum: "\<not> isLowerAlnum hyphen"
  by (simp add: isLowerAlnum_def hyphen_def)

lemma replaceRuns_chars: "c \<in> set (replaceRuns s) \<Longrightarrow> isLowerAlnum c \<or> c = hyphen"
  by (induction s rule: replaceRuns.induct) (auto split: if_splits)

lemma replaceRuns_dropWhile_hd:
  "replaceRuns (dropWhile (\<lambda>d. \<not> isLowerAlnum d) cs) = [] \<or>
   isLowerAlnum (hd (replaceRuns (dropWhile (\<lambda>d. \<not> isLowerAlnum d) cs)))"
proof (cases "dropWhile (\<lambda>d. \<not> isLowerAlnum d) cs")
  case Nil
  then have "replaceRuns (dropWhile (\<lambda>d. \<not> isLowerAlnum d) cs) = []"
    by (simp only: replaceRuns.simps)
  then show ?thesis ..
next
  case (Cons d ds)
  then have "isLowerAlnum d"
    using hd_dropWhile[of "\<lambda>d. \<not> isLowerAlnum d" cs] by simp
  with Cons show ?thesis by simp
qed

lemma replaceRuns_no_double_hyphen:
  "successively (\<lambda>a b. \<not> (a = hyphen \<and> b = hyphen)) (replaceRuns s)"
proof (induction s rule: replaceRuns.induct)
  case 1
  then show ?case by simp
next
  case (2 c cs)
  show ?case
  proof (cases "isLowerAlnum c")
    case True
    then have "c \<noteq> hyphen" using hyphen_not_alnum by auto
    with True 2 show ?thesis by (simp add: successively_Cons)
  next
    case False
    have "replaceRuns (dropWhile (\<lambda>d. \<not> isLowerAlnum d) cs) = [] \<or>
          hd (replaceRuns (dropWhile (\<lambda>d. \<not> isLowerAlnum d) cs)) \<noteq> hyphen"
      using replaceRuns_dropWhile_hd[of cs] hyphen_not_alnum by auto
    with False 2 show ?thesis by (auto simp: successively_Cons)
  qed
qed

lemma replaceRuns_no_alnum:
  "\<forall>c\<in>set s. \<not> isLowerAlnum c \<Longrightarrow> replaceRuns s = (if s = [] then [] else [hyphen])"
proof (cases s)
  case Nil
  then show ?thesis by simp
next
  case (Cons c cs)
  assume a: "\<forall>c\<in>set s. \<not> isLowerAlnum c"
  with Cons have "dropWhile (\<lambda>d. \<not> isLowerAlnum d) cs = []" by simp
  then have "replaceRuns (dropWhile (\<lambda>d. \<not> isLowerAlnum d) cs) = []"
    by (simp only: replaceRuns.simps)
  moreover from a Cons have "\<not> isLowerAlnum c" by simp
  ultimately show ?thesis using Cons by (simp del: dropWhile_eq_Nil_conv)
qed

lemma stripEdgeHyphens_set: "set (stripEdgeHyphens s) \<subseteq> set s"
  by (auto simp: stripEdgeHyphens_def Let_def split: list.splits if_splits dest: in_set_butlastD)

lemma stripEdgeHyphens_single: "stripEdgeHyphens [hyphen] = []"
  by (simp add: stripEdgeHyphens_def)

lemma stripEdgeHyphens_edges:
  assumes s: "successively (\<lambda>a b. \<not> (a = hyphen \<and> b = hyphen)) r"
    and ne: "stripEdgeHyphens r \<noteq> []"
  shows "hd (stripEdgeHyphens r) \<noteq> hyphen \<and> last (stripEdgeHyphens r) \<noteq> hyphen"
proof -
  define t where "t = (case r of [] \<Rightarrow> [] | c # cs \<Rightarrow> if c = hyphen then cs else r)"
  have strip: "stripEdgeHyphens r = (if t \<noteq> [] \<and> last t = hyphen then butlast t else t)"
    by (simp add: stripEdgeHyphens_def t_def)
  have t_succ: "successively (\<lambda>a b. \<not> (a = hyphen \<and> b = hyphen)) t"
    using s by (auto simp: t_def successively_Cons split: list.splits)
  have t_hd: "t = [] \<or> hd t \<noteq> hyphen"
    using s by (auto simp: t_def successively_Cons split: list.splits)
  show ?thesis
  proof (cases "t \<noteq> [] \<and> last t = hyphen")
    case True
    then have eq: "stripEdgeHyphens r = butlast t" using strip by simp
    with ne have bne: "butlast t \<noteq> []" by simp
    from True have "t = butlast t @ [hyphen]" using append_butlast_last_id[of t] by simp
    with t_succ have "successively (\<lambda>a b. \<not> (a = hyphen \<and> b = hyphen)) (butlast t @ [hyphen])"
      by simp
    with bne have l: "last (butlast t) \<noteq> hyphen"
      by (simp add: successively_append_iff)
    from bne have "hd (butlast t) = hd t" by (cases t) auto
    with t_hd True have "hd (butlast t) \<noteq> hyphen" by simp
    with l eq show ?thesis by simp
  next
    case False
    then have eq: "stripEdgeHyphens r = t" using strip by auto
    with ne False t_hd show ?thesis by auto
  qed
qed

text \<open>
  Claim C10. Whatever the lower-casing built-in returns, \<open>sanitizeFilename\<close> returns a
  non-empty string made of the code units of \<open>a\<close> to \<open>z\<close>, \<open>0\<close> to \<open>9\<close> and the hyphen only,
  which neither begins nor ends with a hyphen; when the sanitized form is empty, and in
  particular when the lower-cased name has no code unit in \<open>[a-z0-9]\<close>, the result is the
  fallback \<open>landing-page\<close>.
\<close>

theorem sanitizeFilename_safe:
  "sanitizeFilename toLowerCase name \<noteq> []
   \<and> (\<forall>c\<in>set (sanitizeFilename toLowerCase name). isLowerAlnum c \<or> c = hyphen)
   \<and> hd (sanitizeFilename toLowerCase name) \<noteq> hyphen
   \<and> last (sanitizeFilename toLowerCase name) \<noteq> hyphen
   \<and> (stripEdgeHyphens (replaceRuns (toLowerCase name)) = []
        \<longrightarrow> sanitizeFilename toLowerCase name = js ''landing-page'')
   \<and> ((\<forall>c\<in>set (toLowerCase name). \<not> isLowerAlnum c)
        \<longrightarrow> sanitizeFilename toLowerCase name = js ''landing-page'')"
proof -
  define s where "s = stripEdgeHyphens (replaceRuns (toLowerCase name))"
  have san: "sanitizeFilename toLowerCase name = (if s \<noteq> [] then s else js ''landing-page'')"
    by (simp add: sanitizeFilename_def s_def)
  have fb_chars: "\<forall>c\<in>set (js ''landing-page''). isLowerAlnum c \<or> c = hyphen"
    by (simp add: js_def isLowerAlnum_def hyphen_def)
  have fb_edges: "js ''landing-page'' \<noteq> [] \<and> hd (js ''landing-page'') \<noteq> hyphen
      \<and> last (js ''landing-page'') \<noteq> hyphen"
    by (simp add: js_def hyphen_def)
  have s_chars: "\<forall>c\<in>set s. isLowerAlnum c \<or> c = hyphen"
    using stripEdgeHyphens_set replaceRuns_chars unfolding s_def by blast
  have s_edges: "s \<noteq> [] \<Longrightarrow> hd s \<noteq> hyphen \<and> last s \<noteq> hyphen"
    unfolding s_def by (rule stripEdgeHyphens_edges[OF replaceRuns_no_double_hyphen])
  have no_alnum: "(\<forall>c\<in>set (toLowerCase name). \<not> isLowerAlnum c) \<Longrightarrow> s = []"
    unfolding s_def using replaceRuns_no_alnum[of "toLowerCase name"]
    by (simp add: stripEdgeHyphens_single) (simp add: stripEdgeHyphens_def)
  show ?thesis
  proof (cases "s = []")
    case True
    with san fb_chars fb_edges show ?thesis unfolding s_def[symmetric] by simp
  next
    case False
    with no_alnum have "\<not> (\<forall>c\<in>set (toLowerCase name). \<not> isLowerAlnum c)" by blast
    with False san s_chars s_edges show ?thesis unfolding s_def[symmetric] by auto
  qed
qed

theorem sanitizeFilename_safe_witness:
  "list_all (\<lambda>c. \<not> isLowerAlnum c) (toLowerCaseAscii (js ''!!! ???''))
   \<and> sanitizeFilename toLowerCaseAscii (js ''!!! ???'') = js ''landing-page''
   \<and> sanitizeFilename toLowerCaseAscii (js ''My App! v2.0 '') = js ''my-app-v2-0''
   \<and> list_all (\<lambda>c. isLowerAlnum c \<or> c = hyphen) (js ''my-app-v2-0'')"
proof -
  have p: "\<forall>c\<in>set (toLowerCaseAscii (js ''!!! ???'')). \<not> isLowerAlnum c"
    by (simp add: toLowerCaseAscii_def js_def isLowerAlnum_def)
  from sanitizeFilename_safe[of toLowerCaseAscii "js ''!!! ???''"] p
  have f: "sanitizeFilename toLowerCaseAscii (js ''!!! ???'') = js ''landing-page''"
    by blast
  have e: "sanitizeFilename toLowerCaseAscii (js ''My App! v2.0 '') = js ''my-app-v2-0''"
    by (simp add: sanitizeFilename_def toLowerCaseAscii_def js_def isLowerAlnum_def hyphen_def
        stripEdgeHyphens_def)
  from sanitizeFilename_safe[of toLowerCaseAscii "js ''My App! v2.0 ''"] e
  have "\<forall>c\<in>set (js ''my-app-v2-0''). isLowerAlnum c \<or> c = hyphen"
    by simp
  with p f e show ?thesis unfolding list_all_iff by blast
qed


section \<open>Properties of the votes and of the size normalisation\<close>

lemma leading_member: "leading votes best cs \<in> set (best # cs)"
  by (induction cs arbitrary: best) (auto split: if_splits)

lemma vote_member: "vote v vs \<in> set (v # vs)"
  unfolding vote_def by (rule leading_member)
















section \<open>Properties of the API client and of the operation \<open>analyze\<close>\<close>

lemma analyze_each_urls:
  "map fst (analyze_each render extract_site urls) = filter (\<lambda>u. render u \<noteq> None) urls"
  by (induction urls) (auto split: option.splits)

lemma analyze_each_Nil:
  "analyze_each render extract_site urls = [] \<longleftrightarrow> (\<forall>u\<in>set urls. render u = None)"
  by (induction urls) (auto split: option.splits)


lemma analyze_some_succeed:
  assumes "\<exists>u\<in>set urls. render u \<noteq> None"
  shows "\<exists>da. analyze tol render extract_site urls = Inr da"
proof -
  from assms have ne: "urls \<noteq> []" by auto
  from assms have "analyze_each render extract_site urls \<noteq> []"
    by (simp add: analyze_each_Nil)
  then obtain u s rest where "analyze_each render extract_site urls = (u, s) # rest"
    by (cases "analyze_each render extract_site urls") auto
  with ne show ?thesis by (simp add: analyze_def Let_def)
qed

lemma analyze_Inr_source_urls:
  assumes "analyze tol render extract_site urls = Inr da"
  shows "source_urls da = filter (\<lambda>u. render u \<noteq> None) urls"
proof -
  from assms obtain u s rest where e: "analyze_each render extract_site urls = (u, s) # rest"
    and "source_urls da = u # map fst rest"
    by (auto simp: analyze_def Let_def split: if_splits list.splits)
  then have "source_urls da = map fst (analyze_each render extract_site urls)" by simp
  then show ?thesis by (simp only: analyze_each_urls)
qed


















text \<open>
  Claim C4. Whenever \<open>analyze\<close> returns a result, its \<open>source_urls\<close> are exactly the
  requested URLs that rendered, in the order of the request: a sublist of the request in
  which no URL that failed to render occurs. With 3 requested URLs of which 1 fails,
  \<open>analyze\<close> returns a result whose \<open>source_urls\<close> has length 2.
\<close>

theorem source_urls_are_analyzed_urls:
  "(\<forall>da. analyze tol render extract_site urls = Inr da \<longrightarrow>
       source_urls da = filter (\<lambda>u. render u \<noteq> None) urls
       \<and> subseq (source_urls da) urls
       \<and> (\<forall>u\<in>set urls. render u = None \<longrightarrow> u \<notin> set (source_urls da)))
   \<and> (length urls = 3 \<and> length (filter (\<lambda>u. render u = None) urls) = 1 \<longrightarrow>
       (\<exists>da. analyze tol render extract_site urls = Inr da \<and> length (source_urls da) = 2))"
proof (intro conjI allI impI)
  fix da assume a: "analyze tol render extract_site urls = Inr da"
  from analyze_Inr_source_urls[OF a]
  show s: "source_urls da = filter (\<lambda>u. render u \<noteq> None) urls" .
  show "subseq (source_urls da) urls" unfolding s by (rule subseq_filter_left)
  show "\<forall>u\<in>set urls. render u = None \<longrightarrow> u \<notin> set (source_urls da)" unfolding s by simp
next
  assume h: "length urls = 3 \<and> length (filter (\<lambda>u. render u = None) urls) = 1"
  have split: "length (filter (\<lambda>u. render u = None) urls)
             + length (filter (\<lambda>u. render u \<noteq> None) urls) = length urls"
    using sum_length_filter_compl[of "\<lambda>u. render u = None" urls] by simp
  with h have l: "length (filter (\<lambda>u. render u \<noteq> None) urls) = 2" by simp
  then have "filter (\<lambda>u. render u \<noteq> None) urls \<noteq> []" by auto
  then have "\<exists>u\<in>set urls. render u \<noteq> None" by (auto simp: filter_empty_conv)
  from analyze_some_succeed[OF this]
  obtain da where a: "analyze tol render extract_site urls = Inr da" by blast
  from analyze_Inr_source_urls[OF a] l have "length (source_urls da) = 2" by simp
  with a show "\<exists>da. analyze tol render extract_site urls = Inr da \<and> length (source_urls da) = 2"
    by blast
qed

theorem source_urls_are_analyzed_urls_witness:
  "\<exists>da. analyze 1 (\<lambda>u. if u = ''https://b.example'' then None else Some ())
              (\<lambda>page. example_site True [''48px''])
              [''https://a.example'', ''https://b.example'', ''https://c.example'']
           = Inr da
        \<and> source_urls da = [''https://a.example'', ''https://c.example'']
        \<and> length (source_urls da) = 2"
proof -
  let ?render = "\<lambda>u. if u = ''https://b.example'' then None else Some ()"
  let ?ex = "\<lambda>page :: unit. example_site True [''48px'']"
  let ?urls = "[''https://a.example'', ''https://b.example'', ''https://c.example'']"
  note t = source_urls_are_analyzed_urls
             [where tol = 1 and render = ?render and extract_site = ?ex and urls = ?urls]
  have "length ?urls = 3 \<and> length (filter (\<lambda>u. ?render u = None) ?urls) = 1" by simp
  with t obtain da where a: "analyze 1 ?render ?ex ?urls = Inr da"
    and l: "length (source_urls da) = 2"
    by blast
  from t a have "source_urls da = filter (\<lambda>u. ?render u \<noteq> None) ?urls" by blast
  then have "source_urls da = [''https://a.example'', ''https://c.example'']" by simp
  with a l show ?thesis by blast
qed


section \<open>Properties of the consensus merger\<close>

lemma merge_layout_field:
  "f \<in> set layout_booleans \<Longrightarrow> f (merge_layout ls) = strict_majority (map f ls)"
  by (auto simp: layout_booleans_def merge_layout_def)

lemma strict_majority_card:
  "strict_majority (map f ls) \<longleftrightarrow> length ls < 2 * card {i. i < length ls \<and> f (ls ! i)}"
proof -
  have "filter (\<lambda>v. v) (map f ls) = map f (filter f ls)"
    by (simp add: filter_map comp_def)
  then have "length (filter (\<lambda>v. v) (map f ls)) = card {i. i < length ls \<and> f (ls ! i)}"
    by (simp add: length_filter_conv_card)
  then show ?thesis by (simp add: strict_majority_def)
qed

lemma merged_background_from_sites:
  "background (colors (consensus_merge tol s ss)) \<in> (\<lambda>r. background (colors r)) ` set (s # ss)"
  using vote_member[of "background (colors s)" "map (\<lambda>r. background (colors r)) ss"]
  by (auto simp: consensus_merge_def)

text \<open>
  Claim C1. Each of the seven booleans of the merged layout is true exactly when it is
  true for more than half of the analyzed sites. For two sites that disagree on a boolean
  the merged value is false, and for three sites of which exactly two report it true the
  merged value is true.
\<close>

theorem merged_layout_is_strict_majority:
  assumes "f \<in> set layout_booleans"
  shows "(f (layout (consensus_merge tol s ss))
          \<longleftrightarrow> length (s # ss) < 2 * card {i. i < length (s # ss) \<and> f (layout ((s # ss) ! i))})
       \<and> (ss = [t] \<and> f (layout s) \<noteq> f (layout t) \<longrightarrow> \<not> f (layout (consensus_merge tol s ss)))
       \<and> (ss = [t, u] \<and> length (filter f [layout s, layout t, layout u]) = 2
            \<longrightarrow> f (layout (consensus_merge tol s ss)))"
proof -
  have m: "f (layout (consensus_merge tol s ss)) = strict_majority (map f (map layout (s # ss)))"
    using merge_layout_field[OF assms] by (simp add: consensus_merge_def)
  have 1: "f (layout (consensus_merge tol s ss))
          \<longleftrightarrow> length (s # ss) < 2 * card {i. i < length (s # ss) \<and> f (layout ((s # ss) ! i))}"
    unfolding m map_map using strict_majority_card[of "f \<circ> layout" "s # ss"]
    by (simp only: comp_apply)
  have 2: "ss = [t] \<and> f (layout s) \<noteq> f (layout t) \<longrightarrow> \<not> f (layout (consensus_merge tol s ss))"
    unfolding m by (auto simp: strict_majority_def)
  have 3: "ss = [t, u] \<and> length (filter f [layout s, layout t, layout u]) = 2
            \<longrightarrow> f (layout (consensus_merge tol s ss))"
    unfolding m by (auto simp: strict_majority_def split: if_splits)
  from 1 2 3 show ?thesis by blast
qed

theorem merged_layout_is_strict_majority_witness:
  "has_cta \<in> set layout_booleans
   \<and> has_cta (layout (consensus_merge 1 (example_site True [''48px''])
                         [example_site False [''48px''], example_site True [''40px'']]))
   \<and> \<not> has_cta (layout (consensus_merge 1 (example_site True [''48px'']) [example_site False [''48px'']]))"
proof -
  have m: "has_cta \<in> set layout_booleans" by (simp add: layout_booleans_def)
  have "length (filter has_cta [layout (example_site True [''48px'']), layout (example_site False [''48px'']),
                                layout (example_site True [''40px''])]) = 2"
    by (simp add: example_site_def)
  with merged_layout_is_strict_majority
         [OF m, where ss = "[example_site False [''48px''], example_site True [''40px'']]"
            and t = "example_site False [''48px'']" and u = "example_site True [''40px'']"
            and s = "example_site True [''48px'']" and tol = 1]
  have 3: "has_cta (layout (consensus_merge 1 (example_site True [''48px''])
                              [example_site False [''48px''], example_site True [''40px'']]))"
    by blast
  have "has_cta (layout (example_site True [''48px''])) \<noteq> has_cta (layout (example_site False [''48px'']))"
    by (simp add: example_site_def)
  with merged_layout_is_strict_majority
         [OF m, where ss = "[example_site False [''48px'']]" and t = "example_site False [''48px'']"
            and s = "example_site True [''48px'']" and tol = 1]
  have 2: "\<not> has_cta (layout (consensus_merge 1 (example_site True [''48px''])
                                [example_site False [''48px'']]))"
    by blast
  from m 2 3 show ?thesis by blast
qed


section \<open>Properties of the heading sizes\<close>





section \<open>Properties of the text and background roles\<close>

lemma linearize_bounds: "0 \<le> linearize c \<and> linearize c \<le> 1"
proof -
  define n where "n = unat c"
  define v where "v = real n / 255"
  have "unat c < 2 ^ 8" using unsigned_less[of c] by simp
  then have "n \<le> 255" by (simp add: n_def)
  then have v: "0 \<le> v \<and> v \<le> 1" by (simp add: v_def)
  have lin: "linearize c = (if v \<le> 0.03928 then v / 12.92 else ((v + 0.055) / 1.055) powr 2.4)"
    unfolding linearize_def n_def[symmetric] v_def Let_def ..
  show ?thesis
  proof (cases "v \<le> 0.03928")
    case True
    then have "linearize c = v / 12.92" by (simp only: lin if_True)
    with v show ?thesis by simp
  next
    case False
    then have l: "linearize c = ((v + 0.055) / 1.055) powr 2.4"
      by (simp only: lin if_False)
    from v have "0 \<le> (v + 0.055) / 1.055 \<and> (v + 0.055) / 1.055 \<le> 1" by simp
    then have "((v + 0.055) / 1.055) powr 2.4 \<le> 1" by (intro powr_le1) auto
    with l show ?thesis by simp
  qed
qed

lemma luminance_bounds: "0 \<le> relative_luminance c \<and> relative_luminance c \<le> 1"
proof -
  have r: "0 \<le> linearize (red c) \<and> linearize (red c) \<le> 1"
    and g: "0 \<le> linearize (green c) \<and> linearize (green c) \<le> 1"
    and b: "0 \<le> linearize (blue c) \<and> linearize (blue c) \<le> 1"
    by (rule linearize_bounds)+
  then show ?thesis unfolding relative_luminance_def by simp
qed

lemma linearize_0: "linearize 0 = 0"
  by (simp add: linearize_def)

lemma linearize_255: "linearize 255 = 1"
  by (simp add: linearize_def)

lemma luminance_black: "relative_luminance black = 0"
  by (simp add: relative_luminance_def black_def linearize_0)

lemma luminance_white: "relative_luminance white = 1"
  by (simp add: relative_luminance_def white_def linearize_255)

lemma contrast_black: "contrast black bg = (relative_luminance bg + 0.05) / 0.05"
proof -
  have "max 0 (relative_luminance bg) = relative_luminance bg"
    and "min 0 (relative_luminance bg) = 0"
    using luminance_bounds[of bg] by simp_all
  then show ?thesis by (simp add: contrast_def contrast_ratio_def luminance_black)
qed

lemma contrast_white: "contrast white bg = 1.05 / (relative_luminance bg + 0.05)"
proof -
  have "max 1 (relative_luminance bg) = 1"
    and "min 1 (relative_luminance bg) = relative_luminance bg"
    using luminance_bounds[of bg] by simp_all
  then show ?thesis by (simp add: contrast_def contrast_ratio_def luminance_white)
qed

lemma black_or_white_reaches:
  assumes "m \<le> sqrt 21"
  shows "m \<le> max (contrast black bg) (contrast white bg)"
proof (rule ccontr)
  assume "\<not> m \<le> max (contrast black bg) (contrast white bg)"
  then have b: "contrast black bg < m" and w: "contrast white bg < m" by simp_all
  define x where "x = relative_luminance bg + 0.05"
  have x: "0 < x" using luminance_bounds[of bg] by (simp add: x_def)
  have cb: "contrast black bg = x / 0.05" by (simp add: contrast_black x_def)
  have cw: "contrast white bg = 1.05 / x" by (simp add: contrast_white x_def)
  have pb: "0 < contrast black bg" using x cb by simp
  have pw: "0 < contrast white bg" using x cw by simp
  from pb b have m: "0 < m" by simp
  have "contrast black bg * contrast white bg < m * m"
    using b w pb pw by (intro mult_strict_mono) simp_all
  moreover have "contrast black bg * contrast white bg = 21"
    using x by (simp add: cb cw)
  ultimately have "21 < m * m" by simp
  moreover from assms m have "m * m \<le> sqrt 21 * sqrt 21"
    by (intro mult_mono) simp_all
  ultimately show False by simp
qed

lemma heaviest_mem: "heaviest s ss \<in> set (s # ss)"
  by (induction ss arbitrary: s) (auto split: if_splits)

lemma choose_text_cases:
  "(filter (\<lambda>s. tag s = TextTag \<and> m \<le> contrast (color s) bg) samples = []
      \<and> choose_text m bg samples = (if contrast black bg \<le> contrast white bg then white else black))
   \<or> (\<exists>s\<in>set samples. tag s = TextTag \<and> m \<le> contrast (color s) bg
         \<and> choose_text m bg samples = color s)"
proof (cases "filter (\<lambda>s. tag s = TextTag \<and> m \<le> contrast (color s) bg) samples")
  case Nil
  then show ?thesis by (simp add: choose_text_def)
next
  case (Cons s ss)
  then have c: "choose_text m bg samples = color (heaviest s ss)" by (simp add: choose_text_def)
  have "heaviest s ss \<in> set (filter (\<lambda>s. tag s = TextTag \<and> m \<le> contrast (color s) bg) samples)"
    unfolding Cons by (rule heaviest_mem)
  then have "heaviest s ss \<in> set samples \<and> tag (heaviest s ss) = TextTag
      \<and> m \<le> contrast (color (heaviest s ss)) bg" by simp
  with c show ?thesis by blast
qed

lemma choose_text_contrast:
  assumes "m \<le> sqrt 21"
  shows "m \<le> contrast (choose_text m bg samples) bg"
  using choose_text_cases[of m bg samples] black_or_white_reaches[OF assms, of bg]
  by (auto simp: max_def split: if_splits)

text \<open>
  Claim C6, as stated, fails for a configured minimum that black and white cannot both
  miss: with a minimum of 7 and a pure red background (relative luminance 0.2126) and no
  text sample, the extractor falls back to black, whose contrast ratio with the background
  is 5.252.
\<close>

theorem text_background_contrast_counterexample:
  "extract_background_text 7 white
      [\<lparr>color = \<lparr>red = 255, green = 0, blue = 0\<rparr>, weight = 10, tag = BackgroundTag\<rparr>]
     = (\<lparr>red = 255, green = 0, blue = 0\<rparr>, black)
   \<and> contrast black \<lparr>red = 255, green = 0, blue = 0\<rparr> = 5.252
   \<and> contrast black \<lparr>red = 255, green = 0, blue = 0\<rparr> < 7"
  by (simp add: extract_background_text_def choose_background_def choose_text_def Let_def
      contrast_black contrast_white relative_luminance_def linearize_0 linearize_255)

text \<open>
  Claim C6, amended. When the configured minimum is at most the square root of 21 (about
  4.58, so the 4.5 of WCAG AA is covered), the text and background colours of every
  palette the extractor produces have a contrast ratio at or above the minimum; when no
  sampled text colour reaches the minimum against the chosen background, the text colour
  is pure black or pure white, whichever contrasts better with the background.
\<close>

theorem text_background_contrast:
  assumes "min_contrast \<le> sqrt 21"
  shows "min_contrast \<le> contrast (snd (extract_background_text min_contrast default_background samples))
                              (fst (extract_background_text min_contrast default_background samples))
       \<and> (filter (\<lambda>s. tag s = TextTag
                       \<and> min_contrast \<le> contrast (color s)
                            (fst (extract_background_text min_contrast default_background samples)))
             samples = []
          \<longrightarrow> snd (extract_background_text min_contrast default_background samples) \<in> {black, white}
            \<and> contrast (snd (extract_background_text min_contrast default_background samples))
                       (fst (extract_background_text min_contrast default_background samples))
              = max (contrast black (fst (extract_background_text min_contrast default_background samples)))
                    (contrast white (fst (extract_background_text min_contrast default_background samples))))"
proof -
  define bg where "bg = choose_background default_background samples"
  have e: "extract_background_text min_contrast default_background samples
           = (bg, choose_text min_contrast bg samples)"
    by (simp add: extract_background_text_def bg_def Let_def)
  have 1: "min_contrast \<le> contrast (choose_text min_contrast bg samples) bg"
    by (rule choose_text_contrast[OF assms])
  have 2: "filter (\<lambda>s. tag s = TextTag \<and> min_contrast \<le> contrast (color s) bg) samples = []
       \<longrightarrow> choose_text min_contrast bg samples \<in> {black, white}
         \<and> contrast (choose_text min_contrast bg samples) bg
           = max (contrast black bg) (contrast white bg)"
    by (auto simp: choose_text_def max_def)
  from 1 2 show ?thesis unfolding e by simp
qed

theorem text_background_contrast_witness:
  "(4.5 :: real) \<le> sqrt 21
   \<and> extract_background_text 4.5 white
        [\<lparr>color = \<lparr>red = 255, green = 0, blue = 0\<rparr>, weight = 10, tag = BackgroundTag\<rparr>]
      = (\<lparr>red = 255, green = 0, blue = 0\<rparr>, black)
   \<and> (4.5 :: real) \<le> contrast black \<lparr>red = 255, green = 0, blue = 0\<rparr>"
proof -
  let ?samples = "[\<lparr>color = \<lparr>red = 255, green = 0, blue = 0\<rparr>, weight = 10,
                    tag = BackgroundTag\<rparr>]"
  have h: "(4.5 :: real) \<le> sqrt 21"
    by (rule real_le_rsqrt) (simp add: power2_eq_square)
  have e: "extract_background_text 4.5 white ?samples
           = (\<lparr>red = 255, green = 0, blue = 0\<rparr>, black)"
    by (simp add: extract_background_text_def choose_background_def choose_text_def Let_def
        contrast_black contrast_white relative_luminance_def linearize_0 linearize_255)
  from text_background_contrast[OF h, of white ?samples]
  have "(4.5 :: real) \<le> contrast black \<lparr>red = 255, green = 0, blue = 0\<rparr>"
    unfolding e by simp
  with h e show ?thesis by blast
qed

end
